theory Spec2Isabelle
  imports Main "HOL-Library.Word"
begin

section \<open>Strings\<close>

text \<open>
  A JavaScript string is a sequence of 16-bit code units. Literals of the source are
  written \<open>js ''...''\<close>; the source's literals are all ASCII.
\<close>

type_synonym uchar = "16 word"
type_synonym jsstring = "uchar list"
type_synonym byte = "8 word"

definition js :: "string \<Rightarrow> jsstring" where
  "js s = map of_char s"

section \<open>The two issue patterns (\<open>index.mts\<close>, lines 7 to 12)\<close>

text \<open>
  The source has two regular expression literals with no flags:
  \<^verbatim>\<open>const errorRegex = /ERROR: '(.*)' line (\d+): (.*)/;\<close> and
  \<^verbatim>\<open>const warningRegex = /WARNING: '(.*)' line (\d+): (.*)/;\<close>.
  They are built from literal characters and from capturing groups that hold one greedy
  repetition of a character class: \<open>.\<close> is every code unit but the four line terminators,
  \<open>\d\<close> is an ASCII digit.
\<close>

datatype cls = Dot | Digit

datatype item = Chars jsstring | GroupStar cls | GroupPlus cls

type_synonym regex = "item list"

definition lineTerminator :: "uchar \<Rightarrow> bool" where
  "lineTerminator c = (c = 0x000A \<or> c = 0x000D \<or> c = 0x2028 \<or> c = 0x2029)"

definition isDigit :: "uchar \<Rightarrow> bool" where
  "isDigit c = (0x0030 \<le> c \<and> c \<le> 0x0039)"

fun cls_ok :: "cls \<Rightarrow> uchar \<Rightarrow> bool" where
  "cls_ok Dot c = (\<not> lineTerminator c)"
| "cls_ok Digit c = isDigit c"

definition errorRegex :: regex where
  "errorRegex = [Chars (js (''ERROR: '' @ [CHR 0x27])), GroupStar Dot, Chars (js ''' line ''),
     GroupPlus Digit, Chars (js '': ''), GroupStar Dot]"

definition warningRegex :: regex where
  "warningRegex = [Chars (js (''WARNING: '' @ [CHR 0x27])), GroupStar Dot, Chars (js ''' line ''),
     GroupPlus Digit, Chars (js '': ''), GroupStar Dot]"

subsection \<open>Matching as the engine does it: leftmost start, greedy groups, backtracking\<close>

text \<open>
  \<open>backtrack cont lo s k\<close> lets a greedy repetition give characters back: it tries the
  rest of the pattern (\<open>cont\<close>) after \<open>k\<close> characters of \<open>s\<close>, then after \<open>k - 1\<close>, down to
  \<open>lo\<close> characters, and keeps the first success together with the group's text.
\<close>

fun backtrack :: "(jsstring \<Rightarrow> 'a option) \<Rightarrow> nat \<Rightarrow> jsstring \<Rightarrow> nat \<Rightarrow> (jsstring \<times> 'a) option" where
  "backtrack cont lo s 0 =
     (if lo = 0 then (case cont s of None \<Rightarrow> None | Some r \<Rightarrow> Some ([], r)) else None)"
| "backtrack cont lo s (Suc k) =
     (if Suc k < lo then None
      else (case cont (drop (Suc k) s) of
              Some r \<Rightarrow> Some (take (Suc k) s, r)
            | None \<Rightarrow> backtrack cont lo s k))"

definition greedy :: "cls \<Rightarrow> nat \<Rightarrow> (jsstring \<Rightarrow> jsstring list option) \<Rightarrow> jsstring \<Rightarrow> jsstring list option" where
  "greedy c lo cont s =
     (case backtrack cont lo s (length (takeWhile (cls_ok c) s)) of
        None \<Rightarrow> None
      | Some (g, caps) \<Rightarrow> Some (g # caps))"

text \<open>
  \<open>match_here re s\<close> matches \<open>re\<close> at the start of \<open>s\<close> and returns the texts of the
  capturing groups, in order.
\<close>

primrec match_here :: "regex \<Rightarrow> jsstring \<Rightarrow> jsstring list option" where
  "match_here [] = (\<lambda>s. Some [])"
| "match_here (x # re) = (\<lambda>s.
     (case x of
        Chars lit \<Rightarrow> (if take (length lit) s = lit then match_here re (drop (length lit) s) else None)
      | GroupStar c \<Rightarrow> greedy c 0 (match_here re) s
      | GroupPlus c \<Rightarrow> greedy c 1 (match_here re) s))"

text \<open>
  \<open>issue.match(regex)\<close> for a regex without the global flag: the first start index, from
  0 to the length of the string, at which the pattern matches. The result is the match
  array without its element 0 (the whole match, which the program never reads), or
  \<open>None\<close> for \<open>null\<close>.
\<close>

fun regex_match :: "regex \<Rightarrow> jsstring \<Rightarrow> jsstring list option" where
  "regex_match re [] = match_here re []"
| "regex_match re (c # s) =
     (case match_here re (c # s) of Some m \<Rightarrow> Some m | None \<Rightarrow> regex_match re s)"

text \<open>\<open>m[i]\<close> for \<open>i \<ge> 1\<close> on such a match array.\<close>

definition match_group :: "jsstring list \<Rightarrow> nat \<Rightarrow> jsstring" where
  "match_group m i = m ! (i - 1)"

text \<open>
  \<open>parseInt(s, 10)\<close> on a string that starts with a digit: the value of its longest prefix
  of digits. The program only passes the text of a \<open>(\d+)\<close> group, which is one or more
  digits. The value is exact here; a JavaScript number is exact up to \<open>2^53\<close>.
\<close>

definition parseInt :: "jsstring \<Rightarrow> nat" where
  "parseInt s = foldl (\<lambda>n c. 10 * n + (unat c - 48)) 0 (takeWhile isDigit s)"

text \<open>
  \<open>s.split("\n")\<close>: the pieces of \<open>s\<close> between newline characters; one more piece than
  there are newlines, so never an empty array.
\<close>

fun split_newline :: "jsstring \<Rightarrow> jsstring list" where
  "split_newline [] = [[]]"
| "split_newline (c # s) =
     (if c = 0x000A then [] # split_newline s
      else (case split_newline s of [] \<Rightarrow> [[c]] | l # ls \<Rightarrow> (c # l) # ls))"

text \<open>\<open>a[i]\<close> on an array, for an integer \<open>i\<close>: \<open>undefined\<close> outside the array.\<close>

definition element :: "'a list \<Rightarrow> int \<Rightarrow> 'a option" where
  "element a i = (if 0 \<le> i \<and> i < int (length a) then Some (a ! nat i) else None)"

subsection \<open>The patterns as the specification words them\<close>

text \<open>
  A string matches \<open>KEYWORD: '<file>' line <line>: <message>\<close> when it contains, anywhere,
  the keyword, a colon, a space and a quote, then a file name, then \<open>' line \<close>, then a line
  number of one or more digits, then a colon and a space, then a message; file name and
  message hold no line terminator.
\<close>

definition issue_pattern :: "string \<Rightarrow> jsstring \<Rightarrow> bool" where
  "issue_pattern keyword s =
     (\<exists>before file ln message after.
        s = before @ js (keyword @ '': '' @ [CHR 0x27]) @ file @ js ''' line '' @ ln @ js '': ''
              @ message @ after
        \<and> list_all (\<lambda>c. \<not> lineTerminator c) file
        \<and> ln \<noteq> [] \<and> list_all isDigit ln
        \<and> list_all (\<lambda>c. \<not> lineTerminator c) message)"

text \<open>The same for any pattern of the datatype: the language of a pattern, at a position.\<close>

fun accepts_here :: "regex \<Rightarrow> jsstring \<Rightarrow> bool" where
  "accepts_here [] s = True"
| "accepts_here (Chars lit # re) s = (\<exists>t. s = lit @ t \<and> accepts_here re t)"
| "accepts_here (GroupStar c # re) s = (\<exists>g t. s = g @ t \<and> list_all (cls_ok c) g \<and> accepts_here re t)"
| "accepts_here (GroupPlus c # re) s =
     (\<exists>g t. s = g @ t \<and> g \<noteq> [] \<and> list_all (cls_ok c) g \<and> accepts_here re t)"

definition accepts :: "regex \<Rightarrow> jsstring \<Rightarrow> bool" where
  "accepts re s = (\<exists>before t. s = before @ t \<and> accepts_here re t)"


section \<open>The file system and the runtime\<close>

text \<open>
  A file system maps an absolute path to what is there: a file with its bytes, or a
  directory. Parent directories and permissions are not tracked. The three operations
  are the ones the program calls, with the options it passes: a rejected promise is
  \<open>Inl\<close> of the error.
\<close>

datatype node = File "byte list" | Directory

type_synonym fs = "jsstring \<rightharpoonup> node"

datatype js_error = ENOENT jsstring | EISDIR jsstring | EEXIST jsstring | ChildError jsstring

text \<open>\<open>fs.readFile(path)\<close>: the bytes of the file.\<close>

definition fs_readFile :: "fs \<Rightarrow> jsstring \<Rightarrow> js_error + byte list" where
  "fs_readFile files path =
     (case files path of
        None \<Rightarrow> Inl (ENOENT path)
      | Some Directory \<Rightarrow> Inl (EISDIR path)
      | Some (File bytes) \<Rightarrow> Inr bytes)"

text \<open>\<open>fs.mkdir(path, { recursive: true })\<close>: no error when the directory is there already.\<close>

definition fs_mkdir :: "fs \<Rightarrow> jsstring \<Rightarrow> js_error + fs" where
  "fs_mkdir files path =
     (case files path of
        Some (File bytes) \<Rightarrow> Inl (EEXIST path)
      | _ \<Rightarrow> Inr (files(path \<mapsto> Directory)))"

text \<open>
  \<open>fs.rm(path, { force: true })\<close>: \<open>force\<close> makes a missing path no error; \<open>recursive\<close> is
  not set, so a directory is refused.
\<close>

definition fs_rm :: "fs \<Rightarrow> jsstring \<Rightarrow> js_error + fs" where
  "fs_rm files path =
     (case files path of
        Some Directory \<Rightarrow> Inl (EISDIR path)
      | _ \<Rightarrow> Inr (files(path := None)))"

text \<open>
  A parsed line of the compiler's standard output: a JSON object with up to four known
  keys, each typed as the program's variables are (\<open>boolean\<close>, \<open>string[]\<close>, \<open>object\<close>).
  \<open>'o\<close> is the type of the \<open>stats\<close> object, which the program never looks into.
\<close>

record 'o compilerOutput =
  key_compile_success :: "bool option"
  key_issues :: "jsstring list option"
  key_export_complete :: "bool option"
  key_stats :: "'o option"

text \<open>
  What the spawned compiler does as the program sees it: the \<open>readable\<close> notifications
  before the process ends, each with the parsed object of its text or \<open>None\<close> for text
  that is blank once trimmed; the event that settles the awaited promise (\<open>None\<close> for
  \<open>exit\<close>, \<open>Some e\<close> for \<open>error\<close>); and the files as the process leaves them.
\<close>

record 'o child =
  readable :: "'o compilerOutput option list"
  settled :: "js_error option"
  files_after :: fs

text \<open>
  The library functions whose results the program passes on without looking into them
  are parameters: \<open>path.resolve\<close>, \<open>path.dirname\<close>, \<open>JSON.stringify\<close>, the UTF-8 decoding
  of \<open>fs.readFile(path, { encoding: "utf8" })\<close>, the value of \<open>crypto.randomUUID()\<close> in
  this invocation, \<open>getInklecateBinaryPath()\<close> and \<open>child_process.spawn\<close>.
\<close>

record 'o runtime =
  path_resolve :: "jsstring list \<Rightarrow> jsstring"
  path_dirname :: "jsstring \<Rightarrow> jsstring"
  JSON_stringify :: "'o \<Rightarrow> jsstring"
  utf8 :: "byte list \<Rightarrow> jsstring"
  crypto_randomUUID :: jsstring
  getInklecateBinaryPath :: jsstring
  child_process_spawn :: "jsstring \<Rightarrow> jsstring list \<Rightarrow> fs \<Rightarrow> 'o child"

definition fs_readFile_utf8 :: "'o runtime \<Rightarrow> fs \<Rightarrow> jsstring \<Rightarrow> js_error + jsstring" where
  "fs_readFile_utf8 rt files path =
     (case fs_readFile files path of Inl e \<Rightarrow> Inl e | Inr bytes \<Rightarrow> Inr (utf8 rt bytes))"

section \<open>Diagnostic translation (\<open>index.mts\<close>, lines 13 to 63)\<close>

record Location =
  "file" :: jsstring
  line :: nat
  lineText :: "jsstring option"

record PartialMessage =
  "text" :: jsstring
  location :: "Location option"

datatype IssueMessage = Error PartialMessage | Warning PartialMessage

record CompileContext =
  fileCacheForBuild :: "jsstring \<rightharpoonup> jsstring"
  inkContainingDir :: jsstring

text \<open>
  \<open>readFileForMessage\<close> returns the message and the context with its cache updated; the
  read of a missing file rejects.
\<close>

definition readFileForMessage ::
  "'o runtime \<Rightarrow> fs \<Rightarrow> jsstring \<Rightarrow> nat \<Rightarrow> jsstring \<Rightarrow> CompileContext
     \<Rightarrow> js_error + (PartialMessage \<times> CompileContext)" where
  "readFileForMessage rt files f ln txt context =
     (let resolvedPath = path_resolve rt [inkContainingDir context, f] in
      case (case fileCacheForBuild context resolvedPath of
              Some cached \<Rightarrow> Inr cached
            | None \<Rightarrow> fs_readFile_utf8 rt files resolvedPath) of
        Inl e \<Rightarrow> Inl e
      | Inr fileText \<Rightarrow>
          Inr (\<lparr>text = txt,
                location = Some \<lparr>file = resolvedPath, line = ln,
                                 lineText = element (split_newline fileText) (int ln - 1)\<rparr>\<rparr>,
               context\<lparr>fileCacheForBuild := (fileCacheForBuild context)(resolvedPath \<mapsto> fileText)\<rparr>))"

definition createESBuildMessageForIssue ::
  "'o runtime \<Rightarrow> fs \<Rightarrow> jsstring \<Rightarrow> CompileContext \<Rightarrow> js_error + (IssueMessage \<times> CompileContext)" where
  "createESBuildMessageForIssue rt files issue context =
     (case regex_match errorRegex issue of
        Some errorMatch \<Rightarrow>
          (case readFileForMessage rt files (match_group errorMatch 1)
                  (parseInt (match_group errorMatch 2)) (match_group errorMatch 3) context of
             Inl e \<Rightarrow> Inl e
           | Inr (m, context') \<Rightarrow> Inr (Error m, context'))
      | None \<Rightarrow>
          (case regex_match warningRegex issue of
             Some warningMatch \<Rightarrow>
               (case readFileForMessage rt files (match_group warningMatch 1)
                       (parseInt (match_group warningMatch 2)) (match_group warningMatch 3) context of
                  Inl e \<Rightarrow> Inl e
                | Inr (m, context') \<Rightarrow> Inr (Warning m, context'))
           | None \<Rightarrow> Inr (Error \<lparr>text = issue, location = None\<rparr>, context)))"

section \<open>The plugin's \<open>onLoad\<close> callback (\<open>index.mts\<close>, lines 94 to 204)\<close>

text \<open>The options but \<open>filter\<close>, which only selects the files the callback is called for.\<close>

record InklecatePluginOptions =
  options_count :: "bool option"
  options_stats :: "bool option"
  options_inklecatePluginsDir :: "jsstring option"
  options_tempOutputDir :: "jsstring option"

text \<open>\<open>options?.field\<close>, and the truth value of an optional boolean and of an optional string.\<close>

definition optional :: "'r option \<Rightarrow> ('r \<Rightarrow> 'a option) \<Rightarrow> 'a option" where
  "optional options field = (case options of None \<Rightarrow> None | Some r \<Rightarrow> field r)"

definition truthy_bool :: "bool option \<Rightarrow> bool" where
  "truthy_bool b = (b = Some True)"

definition truthy_string :: "jsstring option \<Rightarrow> bool" where
  "truthy_string s = (case s of None \<Rightarrow> False | Some t \<Rightarrow> t \<noteq> [])"

subsection \<open>The arguments of the compiler (lines 101 to 120)\<close>

definition outputDir :: "'o runtime \<Rightarrow> InklecatePluginOptions option \<Rightarrow> jsstring" where
  "outputDir rt options =
     path_resolve rt [case optional options options_tempOutputDir of None \<Rightarrow> js ''.'' | Some d \<Rightarrow> d]"

definition outputPath :: "'o runtime \<Rightarrow> InklecatePluginOptions option \<Rightarrow> jsstring" where
  "outputPath rt options = path_resolve rt [outputDir rt options, crypto_randomUUID rt @ js ''.json'']"

definition inklecateArgs :: "'o runtime \<Rightarrow> InklecatePluginOptions option \<Rightarrow> jsstring \<Rightarrow> jsstring list" where
  "inklecateArgs rt options path =
     (let args = [js ''-j''];
          args = (if truthy_bool (optional options options_count) then args @ [js ''-c''] else args);
          args = (if truthy_bool (optional options options_stats) then args @ [js ''-s''] else args);
          args = (if truthy_string (optional options options_inklecatePluginsDir)
                  then (case optional options options_inklecatePluginsDir of
                          None \<Rightarrow> args
                        | Some d \<Rightarrow> args @ [js ''-x'', d])
                  else args);
          args = args @ [js ''-o'', outputPath rt options];
          args = args @ [path]
      in args)"

subsection \<open>The \<open>readable\<close> handler (lines 127 to 153)\<close>

text \<open>
  The variables that the handler assigns and the rest of the callback reads. The handler
  reads what has arrived, trims it and, when text is left, parses it with \<open>JSON.parse\<close>
  (lines 136 to 139): a notification is the parsed object, or \<open>None\<close> when no text is left.
  The four tests of a key follow in the order of the source.
\<close>

record 'o variables =
  success :: bool
  exported :: bool
  issues :: "jsstring list"
  stats :: "'o option"

definition initial :: "'o variables" where
  "initial = \<lparr>success = False, exported = False, issues = [], stats = None\<rparr>"

definition on_readable :: "'o variables \<Rightarrow> 'o compilerOutput option \<Rightarrow> 'o variables" where
  "on_readable v chunk =
     (case chunk of
        None \<Rightarrow> v
      | Some compilerOutput \<Rightarrow>
          (let v = (case key_compile_success compilerOutput of None \<Rightarrow> v | Some b \<Rightarrow> v\<lparr>success := b\<rparr>);
               v = (case key_issues compilerOutput of None \<Rightarrow> v | Some l \<Rightarrow> v\<lparr>issues := issues v @ l\<rparr>);
               v = (case key_export_complete compilerOutput of None \<Rightarrow> v | Some b \<Rightarrow> v\<lparr>exported := b\<rparr>);
               v = (case key_stats compilerOutput of None \<Rightarrow> v | Some o' \<Rightarrow> v\<lparr>stats := Some o'\<rparr>)
           in v))"

subsection \<open>The guarded block (lines 155 to 197)\<close>

text \<open>The loop over the issues (lines 161 to 175), with its two arrays.\<close>

fun translate_issues ::
  "'o runtime \<Rightarrow> fs \<Rightarrow> jsstring list \<Rightarrow> CompileContext \<Rightarrow> PartialMessage list \<Rightarrow> PartialMessage list
     \<Rightarrow> js_error + (PartialMessage list \<times> PartialMessage list)" where
  "translate_issues rt files [] context errors warnings = Inr (errors, warnings)"
| "translate_issues rt files (issue # rest) context errors warnings =
     (case createESBuildMessageForIssue rt files issue context of
        Inl e \<Rightarrow> Inl e
      | Inr (message, context') \<Rightarrow>
          translate_issues rt files rest context'
            (case message of Error m \<Rightarrow> errors @ [m] | Warning m \<Rightarrow> errors)
            (case message of Warning m \<Rightarrow> warnings @ [m] | Error m \<Rightarrow> warnings))"

datatype contents = StringContents jsstring | BufferContents "byte list"

record OnLoadResult =
  errors :: "PartialMessage list"
  warnings :: "PartialMessage list"
  contents :: "contents option"
  loader :: "jsstring option"

text \<open>
  The body of \<open>try\<close>: the promise settled by the process, the translation, the three ways
  to build the result. \<open>Inl\<close> is a throw.
\<close>

definition try_block ::
  "'o runtime \<Rightarrow> InklecatePluginOptions option \<Rightarrow> 'o variables \<Rightarrow> js_error option \<Rightarrow> CompileContext
     \<Rightarrow> jsstring \<Rightarrow> fs \<Rightarrow> js_error + OnLoadResult" where
  "try_block rt options v settle context outPath files =
     (case settle of
        Some e \<Rightarrow> Inl e
      | None \<Rightarrow>
          (case translate_issues rt files (issues v) context [] [] of
             Inl e \<Rightarrow> Inl e
           | Inr (errs, warns) \<Rightarrow>
               (case (if truthy_bool (optional options options_stats) then stats v else None) of
                  Some st \<Rightarrow>
                    Inr \<lparr>errors = errs, warnings = warns,
                         contents = Some (StringContents (JSON_stringify rt st)),
                         loader = Some (js ''json'')\<rparr>
                | None \<Rightarrow>
                    if \<not> success v then
                      Inr \<lparr>errors = errs, warnings = warns, contents = None, loader = None\<rparr>
                    else
                      (case (if exported v
                             then (case fs_readFile files outPath of
                                     Inl e \<Rightarrow> Inl e
                                   | Inr bytes \<Rightarrow> Inr (Some (BufferContents bytes)))
                             else Inr None) of
                         Inl e \<Rightarrow> Inl e
                       | Inr c \<Rightarrow>
                           Inr \<lparr>errors = errs, warnings = warns, contents = c,
                                loader = Some (js ''json'')\<rparr>))))"

subsection \<open>The callback\<close>

text \<open>
  From the spawned process on (lines 122 to 200): the handler runs on each notification,
  then the guarded block, then \<open>finally\<close>. A throw of \<open>fs.rm\<close> in \<open>finally\<close> replaces the
  outcome of the block.
\<close>

definition after_spawn ::
  "'o runtime \<Rightarrow> InklecatePluginOptions option \<Rightarrow> jsstring \<Rightarrow> 'o child
     \<Rightarrow> (js_error + OnLoadResult) \<times> fs" where
  "after_spawn rt options path inklecateProcess =
     (let compileContext = \<lparr>fileCacheForBuild = Map.empty, inkContainingDir = path_dirname rt path\<rparr>;
          v = foldl on_readable initial (readable inklecateProcess);
          files = files_after inklecateProcess;
          outcome = try_block rt options v (settled inklecateProcess) compileContext
                      (outputPath rt options) files
      in case fs_rm files (outputPath rt options) of
           Inl e \<Rightarrow> (Inl e, files)
         | Inr files' \<Rightarrow> (outcome, files'))"

text \<open>
  The whole callback for \<open>args.path = path\<close>: the result or the rejection, and the files
  afterwards. \<open>fs.mkdir\<close> is awaited before the guarded block, so its failure rejects with
  nothing else done.
\<close>

definition onLoad ::
  "'o runtime \<Rightarrow> InklecatePluginOptions option \<Rightarrow> jsstring \<Rightarrow> fs \<Rightarrow> (js_error + OnLoadResult) \<times> fs" where
  "onLoad rt options path files =
     (case fs_mkdir files (outputDir rt options) of
        Inl e \<Rightarrow> (Inl e, files)
      | Inr files' \<Rightarrow>
          after_spawn rt options path
            (child_process_spawn rt (getInklecateBinaryPath rt) (inklecateArgs rt options path) files'))"

section \<open>The words of the specification\<close>

text \<open>
  The events that were parsed, and the value of a key in the last event that carries it
  (\<open>None\<close> when no event does).
\<close>

definition parsed :: "'o compilerOutput option list \<Rightarrow> 'o compilerOutput list" where
  "parsed chunks = List.map_filter (\<lambda>chunk. chunk) chunks"

definition last_value :: "('e \<Rightarrow> 'a option) \<Rightarrow> 'e list \<Rightarrow> 'a option" where
  "last_value key evs =
     (if List.map_filter key evs = [] then None else Some (last (List.map_filter key evs)))"

text \<open>
  The translation of one issue on its own, with nothing cached: the message, or the error
  of the read.
\<close>

definition translated :: "'o runtime \<Rightarrow> fs \<Rightarrow> jsstring \<Rightarrow> jsstring \<Rightarrow> js_error + IssueMessage" where
  "translated rt files dir issue =
     (case createESBuildMessageForIssue rt files issue
             \<lparr>fileCacheForBuild = Map.empty, inkContainingDir = dir\<rparr> of
        Inl e \<Rightarrow> Inl e
      | Inr (m, context') \<Rightarrow> Inr m)"

text \<open>The results of a list of steps taken in order: the first error, or all the values.\<close>

fun in_order :: "('e + 'a) list \<Rightarrow> 'e + 'a list" where
  "in_order [] = Inr []"
| "in_order (Inl e # rest) = Inl e"
| "in_order (Inr x # rest) = (case in_order rest of Inl e \<Rightarrow> Inl e | Inr xs \<Rightarrow> Inr (x # xs))"

text \<open>The messages of one severity, in the order they have in the list.\<close>

definition errors_of :: "IssueMessage list \<Rightarrow> PartialMessage list" where
  "errors_of ms = List.map_filter (\<lambda>m. case m of Error e \<Rightarrow> Some e | Warning w \<Rightarrow> None) ms"

definition warnings_of :: "IssueMessage list \<Rightarrow> PartialMessage list" where
  "warnings_of ms = List.map_filter (\<lambda>m. case m of Warning w \<Rightarrow> Some w | Error e \<Rightarrow> None) ms"

text \<open>A cache holds nothing but what a read of the file gives.\<close>

definition cache_consistent :: "'o runtime \<Rightarrow> fs \<Rightarrow> CompileContext \<Rightarrow> bool" where
  "cache_consistent rt files context =
     (\<forall>p t. fileCacheForBuild context p = Some t \<longrightarrow> fs_readFile_utf8 rt files p = Inr t)"

section \<open>A runtime and a compiler to run the model on\<close>

text \<open>
  The example runtime works on absolute POSIX paths with no \<open>.\<close> or \<open>..\<close> segment and no
  doubled or trailing slash, in the working directory \<open>/work\<close>, and on ASCII files; a
  \<open>stats\<close> object is held as its JSON text.
\<close>

definition ascii :: "string \<Rightarrow> byte list" where
  "ascii s = map of_char s"

definition example_join :: "jsstring \<Rightarrow> jsstring \<Rightarrow> jsstring" where
  "example_join base p =
     (if p = [] \<or> p = js ''.'' then base
      else if take 1 p = js ''/'' then p
      else base @ js ''/'' @ p)"

definition example_dirname :: "jsstring \<Rightarrow> jsstring" where
  "example_dirname p = rev (drop 1 (dropWhile (\<lambda>c. c \<noteq> 0x002F) (rev p)))"

definition example_runtime :: "(jsstring list \<Rightarrow> fs \<Rightarrow> jsstring child) \<Rightarrow> jsstring runtime" where
  "example_runtime compiler =
     \<lparr>path_resolve = foldl example_join (js ''/work''),
      path_dirname = example_dirname,
      JSON_stringify = (\<lambda>st. st),
      utf8 = map ucast,
      crypto_randomUUID = js ''6f1c'',
      getInklecateBinaryPath = js ''/bin/inklecate'',
      child_process_spawn = (\<lambda>binary args files. compiler args files)\<rparr>"

text \<open>
  An example compiler gives the listed notifications, ends as told and leaves \<open>out\<close>, if
  any, at the path that follows \<open>-o\<close> in its arguments.
\<close>

fun argument_after :: "jsstring \<Rightarrow> jsstring list \<Rightarrow> jsstring option" where
  "argument_after flag (a # b # rest) =
     (if a = flag then Some b else argument_after flag (b # rest))"
| "argument_after flag rest = None"

definition example_compiler ::
  "jsstring compilerOutput option list \<Rightarrow> js_error option \<Rightarrow> node option
     \<Rightarrow> jsstring list \<Rightarrow> fs \<Rightarrow> jsstring child" where
  "example_compiler chunks ending out args files =
     \<lparr>readable = chunks, settled = ending,
      files_after = (case (argument_after (js ''-o'') args, out) of
                       (Some p, Some n) \<Rightarrow> files(p \<mapsto> n)
                     | _ \<Rightarrow> files)\<rparr>"

definition nothing :: "jsstring compilerOutput" where
  "nothing = \<lparr>key_compile_success = None, key_issues = None, key_export_complete = None,
              key_stats = None\<rparr>"

text \<open>The example project: one story of three lines, the second a blank choice.\<close>

definition story :: jsstring where
  "story = js ''/proj/story.ink''"

definition story_text :: string where
  "story_text = ''Once upon a time'' @ [CHR 0x0A] @ ''* '' @ [CHR 0x0A] @ ''-> END''"

definition example_files :: fs where
  "example_files = [js ''/proj'' \<mapsto> Directory, story \<mapsto> File (ascii story_text)]"

text \<open>The process that \<open>onLoad\<close> spawns for the story, on the example files.\<close>

definition example_child ::
  "(jsstring list \<Rightarrow> fs \<Rightarrow> jsstring child) \<Rightarrow> InklecatePluginOptions option \<Rightarrow> jsstring child" where
  "example_child compiler options =
     child_process_spawn (example_runtime compiler) (getInklecateBinaryPath (example_runtime compiler))
       (inklecateArgs (example_runtime compiler) options story)
       (example_files(outputDir (example_runtime compiler) options \<mapsto> Directory))"

text \<open>Issues and compilers of the examples.\<close>

definition blank_choice :: jsstring where
  "blank_choice = js ''WARNING: 'story.ink' line 2: Blank choice''"

definition warning_compiler :: "jsstring list \<Rightarrow> fs \<Rightarrow> jsstring child" where
  "warning_compiler =
     example_compiler
       [Some (nothing\<lparr>key_issues := Some [blank_choice]\<rparr>), None,
        Some (nothing\<lparr>key_compile_success := Some True\<rparr>),
        Some (nothing\<lparr>key_export_complete := Some True\<rparr>)]
       None (Some (File (ascii ''{}'')))"

definition stats_options :: InklecatePluginOptions where
  "stats_options =
     \<lparr>options_count = Some True, options_stats = Some True,
      options_inklecatePluginsDir = Some (js ''/plugins''),
      options_tempOutputDir = Some (js ''/tmp/ink'')\<rparr>"

definition stats_compiler :: "jsstring list \<Rightarrow> fs \<Rightarrow> jsstring child" where
  "stats_compiler =
     example_compiler
       [Some (nothing\<lparr>key_compile_success := Some False,
                      key_issues := Some [js ''Something went wrong'']\<rparr>),
        Some (nothing\<lparr>key_stats := Some (js ''{}'')\<rparr>)]
       None None"

definition retracting_compiler :: "jsstring list \<Rightarrow> fs \<Rightarrow> jsstring child" where
  "retracting_compiler =
     example_compiler
       [Some (nothing\<lparr>key_compile_success := Some True, key_export_complete := Some True\<rparr>),
        Some (nothing\<lparr>key_export_complete := Some False\<rparr>)]
       None (Some (File (ascii ''{}'')))"

definition missing_include :: jsstring where
  "missing_include = js ''ERROR: 'missing.ink' line 1: Could not find file''"

definition missing_compiler :: "node \<Rightarrow> jsstring list \<Rightarrow> fs \<Rightarrow> jsstring child" where
  "missing_compiler out =
     example_compiler
       [Some (nothing\<lparr>key_compile_success := Some False,
                      key_issues := Some [blank_choice, missing_include]\<rparr>)]
       None (Some out)"

definition directory_compiler :: "jsstring list \<Rightarrow> fs \<Rightarrow> jsstring child" where
  "directory_compiler =
     example_compiler [Some (nothing\<lparr>key_compile_success := Some True\<rparr>)] None (Some Directory)"

definition nested_issue :: jsstring where
  "nested_issue = js ''WARNING: 'story.ink' line 2: saw ERROR: 'story.ink' line 3: boom''"

section \<open>Matching decides the patterns\<close>

lemma backtrack_Some:
  "backtrack cont lo s k = Some (g, r) \<Longrightarrow> \<exists>j. lo \<le> j \<and> j \<le> k \<and> g = take j s \<and> cont (drop j s) = Some r"
proof (induction k)
  case 0
  then show ?case by (auto split: if_splits option.splits)
next
  case (Suc k)
  show ?case
  proof (cases "cont (drop (Suc k) s)")
    case None
    with Suc.prems have "backtrack cont lo s k = Some (g, r)"
      by (simp split: if_splits)
    from Suc.IH[OF this] obtain j where "lo \<le> j" "j \<le> k" "g = take j s" "cont (drop j s) = Some r"
      by blast
    then show ?thesis by (intro exI[of _ j]) simp
  next
    case (Some a)
    with Suc.prems have "\<not> Suc k < lo" "g = take (Suc k) s" "a = r"
      by (auto split: if_splits)
    with Some show ?thesis by (intro exI[of _ "Suc k"]) simp
  qed
qed

lemma backtrack_None:
  "backtrack cont lo s k = None \<Longrightarrow> lo \<le> j \<Longrightarrow> j \<le> k \<Longrightarrow> cont (drop j s) = None"
proof (induction k)
  case 0
  then show ?case by (auto split: if_splits option.splits)
next
  case (Suc k)
  show ?case
  proof (cases "j = Suc k")
    case True
    with Suc.prems show ?thesis by (auto split: if_splits option.splits)
  next
    case False
    with Suc.prems have "j \<le> k" by simp
    moreover from Suc.prems have "backtrack cont lo s k = None"
      by (auto split: if_splits option.splits)
    ultimately show ?thesis using Suc.IH Suc.prems(2) by blast
  qed
qed

lemma take_takeWhile_all:
  "j \<le> length (takeWhile P s) \<Longrightarrow> list_all P (take j s)"
proof -
  assume "j \<le> length (takeWhile P s)"
  then have "take j s = take j (takeWhile P s)"
    by (metis takeWhile_dropWhile_id take_append diff_is_0_eq take_0 append_Nil2 )
  moreover have "list_all P (takeWhile P s)"
    by (simp add: list_all_iff) (meson set_takeWhileD)
  ultimately show ?thesis
    by (metis list_all_append append_take_drop_id)
qed

lemma all_prefix_le_takeWhile:
  "list_all P g \<Longrightarrow> length g \<le> length (takeWhile P (g @ t))"
  by (induction g) auto

lemma greedy_iff:
  "(\<exists>m. greedy c lo cont s = Some m) =
   (\<exists>g t. s = g @ t \<and> lo \<le> length g \<and> list_all (cls_ok c) g \<and> (\<exists>m. cont t = Some m))"
proof
  assume "\<exists>m. greedy c lo cont s = Some m"
  then obtain g r where "backtrack cont lo s (length (takeWhile (cls_ok c) s)) = Some (g, r)"
    by (auto simp: greedy_def split: option.splits)
  from backtrack_Some[OF this] obtain j where
    j: "lo \<le> j" "j \<le> length (takeWhile (cls_ok c) s)" "g = take j s" "cont (drop j s) = Some r"
    by blast
  have "j \<le> length s" using j(2) length_takeWhile_le[of "cls_ok c" s] by linarith
  then have "s = take j s @ drop j s" "lo \<le> length (take j s)" using j(1) by simp_all
  moreover have "list_all (cls_ok c) (take j s)" using take_takeWhile_all[OF j(2)] .
  ultimately show "\<exists>g t. s = g @ t \<and> lo \<le> length g \<and> list_all (cls_ok c) g \<and> (\<exists>m. cont t = Some m)"
    using j(4) by blast
next
  assume "\<exists>g t. s = g @ t \<and> lo \<le> length g \<and> list_all (cls_ok c) g \<and> (\<exists>m. cont t = Some m)"
  then obtain g t m where gt: "s = g @ t" "lo \<le> length g" "list_all (cls_ok c) g" "cont t = Some m"
    by blast
  show "\<exists>m. greedy c lo cont s = Some m"
  proof (rule ccontr)
    assume "\<nexists>m. greedy c lo cont s = Some m"
    then have "greedy c lo cont s = None" by simp
    then have "backtrack cont lo s (length (takeWhile (cls_ok c) s)) = None"
      by (auto simp: greedy_def split: option.splits)
    from backtrack_None[OF this gt(2)] all_prefix_le_takeWhile[OF gt(3), of t] gt(1)
    have "cont (drop (length g) s) = None" by simp
    with gt show False by simp
  qed
qed

lemma match_here_iff: "(\<exists>m. match_here re s = Some m) = accepts_here re s"
proof (induction re arbitrary: s)
  case Nil
  show ?case by simp
next
  case (Cons x re)
  show ?case
  proof (cases x)
    case (Chars lit)
    have "(take (length lit) s = lit) = (\<exists>t. s = lit @ t)"
      by (metis append_eq_conv_conj append_take_drop_id)
    then show ?thesis using Chars Cons.IH
      by (auto simp: append_eq_conv_conj)
  next
    case (GroupStar c)
    then show ?thesis using Cons.IH by (simp add: greedy_iff)
  next
    case (GroupPlus c)
    have "\<And>g::jsstring. (1 \<le> length g) = (g \<noteq> [])" by (simp add: Suc_le_eq)
    then show ?thesis using GroupPlus Cons.IH by (simp add: greedy_iff)
  qed
qed

lemma regex_match_iff: "(\<exists>m. regex_match re s = Some m) = accepts re s"
proof (induction s)
  case Nil
  show ?case by (simp add: accepts_def match_here_iff)
next
  case (Cons c s)
  have "accepts re (c # s) = (accepts_here re (c # s) \<or> accepts re s)"
    unfolding accepts_def
    by (auto simp: Cons_eq_append_conv) 
  then show ?case using Cons.IH match_here_iff[of re "c # s"]
    by (auto split: option.splits)
qed

lemma accepts_here_issue:
  "accepts_here [Chars k, GroupStar Dot, Chars l2, GroupPlus Digit, Chars l3, GroupStar Dot] t =
   (\<exists>file ln message after. t = k @ file @ l2 @ ln @ l3 @ message @ after
      \<and> list_all (\<lambda>c. \<not> lineTerminator c) file \<and> ln \<noteq> [] \<and> list_all isDigit ln
      \<and> list_all (\<lambda>c. \<not> lineTerminator c) message)"
  (is "?L = ?R")
proof
  assume ?L
  then obtain f t2 ln t4 message after where
    "t = k @ f @ t2" "list_all (cls_ok Dot) f" "t2 = l2 @ ln @ t4" "ln \<noteq> []"
    "list_all (cls_ok Digit) ln" "t4 = l3 @ message @ after" "list_all (cls_ok Dot) message"
    by auto
  then show ?R
    by (intro exI[of _ f] exI[of _ ln] exI[of _ message] exI[of _ after])
       (simp add: list_all_iff)
next
  assume ?R
  then obtain f ln message after where
    "t = k @ f @ l2 @ ln @ l3 @ message @ after"
    "list_all (\<lambda>c. \<not> lineTerminator c) f" "ln \<noteq> []" "list_all isDigit ln"
    "list_all (\<lambda>c. \<not> lineTerminator c) message"
    by blast
  then show ?L
    by (simp add: list_all_iff) blast
qed

lemma accepts_issue_pattern:
  "accepts [Chars (js (keyword @ '': '' @ [CHR 0x27])), GroupStar Dot, Chars (js ''' line ''),
     GroupPlus Digit, Chars (js '': ''), GroupStar Dot] s = issue_pattern keyword s"
  unfolding accepts_def issue_pattern_def accepts_here_issue
  by blast

lemma accepts_errorRegex: "accepts errorRegex s = issue_pattern ''ERROR'' s"
  using accepts_issue_pattern[of "''ERROR''" s] by (simp add: errorRegex_def)

lemma accepts_warningRegex: "accepts warningRegex s = issue_pattern ''WARNING'' s"
  using accepts_issue_pattern[of "''WARNING''" s] by (simp add: warningRegex_def)

subsection \<open>The groups of a match\<close>

lemma match_group_three:
  "match_group [a, b, c] 1 = a" "match_group [a, b, c] 2 = b" "match_group [a, b, c] 3 = c"
  "match_group [a, b, c] (Suc 0) = a"
  by (simp_all add: match_group_def numeral_2_eq_2 numeral_3_eq_3)








section \<open>The accumulated state\<close>

lemma map_filter_snoc:
  "List.map_filter f (xs @ [x]) = List.map_filter f xs @ (case f x of None \<Rightarrow> [] | Some y \<Rightarrow> [y])"
  by (simp add: List.map_filter_def split: option.splits)

lemma last_value_snoc:
  "last_value key (evs @ [e]) = (case key e of None \<Rightarrow> last_value key evs | Some b \<Rightarrow> Some b)"
  by (simp add: last_value_def map_filter_snoc split: option.splits)

lemma parsed_snoc:
  "parsed (chunks @ [chunk]) = (case chunk of None \<Rightarrow> parsed chunks | Some e \<Rightarrow> parsed chunks @ [e])"
  by (simp add: parsed_def map_filter_snoc split: option.splits)

lemma on_readable_fields:
  "success (on_readable v (Some e)) = (case key_compile_success e of None \<Rightarrow> success v | Some b \<Rightarrow> b)"
  "exported (on_readable v (Some e)) = (case key_export_complete e of None \<Rightarrow> exported v | Some b \<Rightarrow> b)"
  "stats (on_readable v (Some e)) = (case key_stats e of None \<Rightarrow> stats v | Some b \<Rightarrow> Some b)"
  "issues (on_readable v (Some e)) = (case key_issues e of None \<Rightarrow> issues v | Some l \<Rightarrow> issues v @ l)"
  "on_readable v None = v"
  by (simp_all add: on_readable_def Let_def split: option.splits)

lemma accumulated_success:
  "success (foldl on_readable initial chunks) =
     (case last_value key_compile_success (parsed chunks) of None \<Rightarrow> False | Some b \<Rightarrow> b)"
proof (induction chunks rule: rev_induct)
  case Nil
  show ?case by (simp add: initial_def last_value_def parsed_def List.map_filter_def)
next
  case (snoc chunk chunks)
  then show ?case
    by (cases chunk) (simp_all add: on_readable_fields parsed_snoc last_value_snoc split: option.splits)
qed

lemma accumulated_exported:
  "exported (foldl on_readable initial chunks) =
     (case last_value key_export_complete (parsed chunks) of None \<Rightarrow> False | Some b \<Rightarrow> b)"
proof (induction chunks rule: rev_induct)
  case Nil
  show ?case by (simp add: initial_def last_value_def parsed_def List.map_filter_def)
next
  case (snoc chunk chunks)
  then show ?case
    by (cases chunk) (simp_all add: on_readable_fields parsed_snoc last_value_snoc split: option.splits)
qed

lemma accumulated_stats:
  "stats (foldl on_readable initial chunks) = last_value key_stats (parsed chunks)"
proof (induction chunks rule: rev_induct)
  case Nil
  show ?case by (simp add: initial_def last_value_def parsed_def List.map_filter_def)
next
  case (snoc chunk chunks)
  then show ?case
    by (cases chunk) (simp_all add: on_readable_fields parsed_snoc last_value_snoc split: option.splits)
qed

lemma accumulated_issues:
  "issues (foldl on_readable initial chunks) = concat (List.map_filter key_issues (parsed chunks))"
proof (induction chunks rule: rev_induct)
  case Nil
  show ?case by (simp add: initial_def parsed_def List.map_filter_def)
next
  case (snoc chunk chunks)
  then show ?case
    by (cases chunk) (simp_all add: on_readable_fields parsed_snoc map_filter_snoc split: option.splits)
qed

text \<open>
  Claim C7. Whatever notifications arrive before the process ends, the variables then
  hold: in \<open>success\<close> the \<open>compile-success\<close> value of the last event that carries that key
  (\<open>false\<close>, the initial value, when none does), in \<open>exported\<close> the same for
  \<open>export-complete\<close>, in \<open>stats\<close> the \<open>stats\<close> object of the last event that carries one, and
  in \<open>issues\<close> the \<open>issues\<close> arrays of all events that carry one, joined in arrival order.
\<close>

theorem C7_accumulated_state:
  "success (foldl on_readable initial chunks) =
     (case last_value key_compile_success (parsed chunks) of None \<Rightarrow> False | Some b \<Rightarrow> b)
   \<and> exported (foldl on_readable initial chunks) =
     (case last_value key_export_complete (parsed chunks) of None \<Rightarrow> False | Some b \<Rightarrow> b)
   \<and> stats (foldl on_readable initial chunks) = last_value key_stats (parsed chunks)
   \<and> issues (foldl on_readable initial chunks) = concat (List.map_filter key_issues (parsed chunks))"
  using accumulated_success accumulated_exported accumulated_stats accumulated_issues by blast

section \<open>Diagnostic translation\<close>

lemma readFileForMessage_message:
  assumes "cache_consistent rt files ctx"
  shows "map_sum (\<lambda>e. e) fst (readFileForMessage rt files f ln txt ctx) =
         map_sum (\<lambda>e. e) fst (readFileForMessage rt files f ln txt
             \<lparr>fileCacheForBuild = Map.empty, inkContainingDir = inkContainingDir ctx\<rparr>)"
proof (cases "fileCacheForBuild ctx (path_resolve rt [inkContainingDir ctx, f])")
  case None
  then show ?thesis
    by (simp add: readFileForMessage_def Let_def split: sum.splits)
next
  case (Some t)
  with assms have "fs_readFile_utf8 rt files (path_resolve rt [inkContainingDir ctx, f]) = Inr t"
    by (simp add: cache_consistent_def)
  with Some show ?thesis
    by (simp add: readFileForMessage_def Let_def)
qed

lemma readFileForMessage_context:
  assumes "cache_consistent rt files ctx"
    and "readFileForMessage rt files f ln txt ctx = Inr (m, ctx')"
  shows "cache_consistent rt files ctx' \<and> inkContainingDir ctx' = inkContainingDir ctx"
proof (cases "fileCacheForBuild ctx (path_resolve rt [inkContainingDir ctx, f])")
  case None
  with assms show ?thesis
    by (auto simp: readFileForMessage_def Let_def cache_consistent_def split: sum.splits if_splits)
next
  case (Some t)
  with assms(1) have "fs_readFile_utf8 rt files (path_resolve rt [inkContainingDir ctx, f]) = Inr t"
    by (simp add: cache_consistent_def)
  with Some assms show ?thesis
    by (auto simp: readFileForMessage_def Let_def cache_consistent_def split: if_splits)
qed

lemma create_message:
  assumes "cache_consistent rt files ctx"
  shows "map_sum (\<lambda>e. e) fst (createESBuildMessageForIssue rt files issue ctx) =
         translated rt files (inkContainingDir ctx) issue"
proof -
  let ?fresh = "\<lparr>fileCacheForBuild = Map.empty, inkContainingDir = inkContainingDir ctx\<rparr>"
  have r: "\<And>f ln txt. map_sum (\<lambda>e. e) fst (readFileForMessage rt files f ln txt ctx) =
         map_sum (\<lambda>e. e) fst (readFileForMessage rt files f ln txt ?fresh)"
    using readFileForMessage_message[OF assms] .
  show ?thesis
  proof (cases "regex_match errorRegex issue")
    case (Some em)
    from r[of "match_group em 1" "parseInt (match_group em 2)" "match_group em 3"] Some
    show ?thesis
      by (auto simp: createESBuildMessageForIssue_def translated_def split: sum.splits)
  next
    case None
    show ?thesis
    proof (cases "regex_match warningRegex issue")
      case (Some wm)
      from r[of "match_group wm 1" "parseInt (match_group wm 2)" "match_group wm 3"] Some None
      show ?thesis
        by (auto simp: createESBuildMessageForIssue_def translated_def split: sum.splits)
    next
      case None
      with \<open>regex_match errorRegex issue = None\<close> show ?thesis
        by (simp add: createESBuildMessageForIssue_def translated_def)
    qed
  qed
qed

lemma create_context:
  assumes "cache_consistent rt files ctx"
    and "createESBuildMessageForIssue rt files issue ctx = Inr (m, ctx')"
  shows "cache_consistent rt files ctx' \<and> inkContainingDir ctx' = inkContainingDir ctx"
  using assms readFileForMessage_context[OF assms(1)]
  by (auto simp: createESBuildMessageForIssue_def split: option.splits sum.splits)

lemma errors_of_simps:
  "errors_of [] = []"
  "errors_of (Error m # ms) = m # errors_of ms"
  "errors_of (Warning m # ms) = errors_of ms"
  "warnings_of [] = []"
  "warnings_of (Error m # ms) = warnings_of ms"
  "warnings_of (Warning m # ms) = m # warnings_of ms"
  by (simp_all add: errors_of_def warnings_of_def List.map_filter_def)

lemma translate_issues_in_order:
  assumes "cache_consistent rt files ctx"
  shows "translate_issues rt files iss ctx es ws =
     (case in_order (map (translated rt files (inkContainingDir ctx)) iss) of
        Inl e \<Rightarrow> Inl e
      | Inr ms \<Rightarrow> Inr (es @ errors_of ms, ws @ warnings_of ms))"
  using assms
proof (induction iss arbitrary: ctx es ws)
  case Nil
  show ?case by (simp add: errors_of_simps)
next
  case (Cons issue rest)
  show ?case
  proof (cases "createESBuildMessageForIssue rt files issue ctx")
    case (Inl e)
    with create_message[OF Cons.prems, of issue]
    have "translated rt files (inkContainingDir ctx) issue = Inl e" by simp
    with Inl show ?thesis by simp
  next
    case (Inr r)
    obtain m ctx' where r: "r = (m, ctx')" by (cases r)
    with Inr create_message[OF Cons.prems, of issue]
    have t: "translated rt files (inkContainingDir ctx) issue = Inr m" by simp
    from create_context[OF Cons.prems] Inr r
    have c: "cache_consistent rt files ctx'" "inkContainingDir ctx' = inkContainingDir ctx"
      by auto
    show ?thesis
      using Inr r t Cons.IH[OF c(1)] c(2)
      by (cases m) (simp_all add: errors_of_simps split: sum.splits)
  qed
qed

lemma cache_consistent_empty:
  "cache_consistent rt files \<lparr>fileCacheForBuild = Map.empty, inkContainingDir = dir\<rparr>"
  by (simp add: cache_consistent_def)

lemma issue_pattern_ERROR: "issue_pattern ''ERROR'' s = (\<exists>m. regex_match errorRegex s = Some m)"
  by (simp add: regex_match_iff accepts_errorRegex)

lemma issue_pattern_WARNING: "issue_pattern ''WARNING'' s = (\<exists>m. regex_match warningRegex s = Some m)"
  by (simp add: regex_match_iff accepts_warningRegex)

lemma translate_issues_count:
  "translate_issues rt files iss ctx es ws = Inr (errs, warns) \<Longrightarrow>
   length errs + length warns = length es + length ws + length iss"
proof (induction iss arbitrary: ctx es ws)
  case Nil
  then show ?case by simp
next
  case (Cons issue rest)
  from Cons.prems obtain m ctx' where
    r: "createESBuildMessageForIssue rt files issue ctx = Inr (m, ctx')"
    by (auto split: sum.splits)
  show ?case
  proof (cases m)
    case (Error pm)
    with Cons.prems r have "translate_issues rt files rest ctx' (es @ [pm]) ws = Inr (errs, warns)"
      by simp
    from Cons.IH[OF this] show ?thesis by simp
  next
    case (Warning pm)
    with Cons.prems r have "translate_issues rt files rest ctx' es (ws @ [pm]) = Inr (errs, warns)"
      by simp
    from Cons.IH[OF this] show ?thesis by simp
  qed
qed

text \<open>
  Claim C4. An issue that matches neither the error pattern nor the warning pattern
  becomes an error message whose text is the issue itself and which has no location; no
  file is read and the context is unchanged. Every issue gives one message, an error or a
  warning: when the loop over the issues ends, the two arrays together hold as many
  messages as there were issues.
\<close>

theorem C4_unmatched_issue:
  "(\<not> issue_pattern ''ERROR'' issue \<and> \<not> issue_pattern ''WARNING'' issue \<longrightarrow>
      createESBuildMessageForIssue rt files issue ctx
        = Inr (Error \<lparr>text = issue, location = None\<rparr>, ctx))
   \<and> (translate_issues rt files iss ctx [] [] = Inr (errs, warns) \<longrightarrow>
         length errs + length warns = length iss)"
proof (intro conjI impI)
  assume "\<not> issue_pattern ''ERROR'' issue \<and> \<not> issue_pattern ''WARNING'' issue"
  then have "regex_match errorRegex issue = None" "regex_match warningRegex issue = None"
    by (simp_all add: issue_pattern_ERROR issue_pattern_WARNING)
  then show "createESBuildMessageForIssue rt files issue ctx
        = Inr (Error \<lparr>text = issue, location = None\<rparr>, ctx)"
    by (simp add: createESBuildMessageForIssue_def)
next
  assume "translate_issues rt files iss ctx [] [] = Inr (errs, warns)"
  from translate_issues_count[OF this] show "length errs + length warns = length iss" by simp
qed

text \<open>
  Claim C4 on a line of the compiler that is no diagnostic, alone and before a warning.
\<close>

theorem C4_witness:
  "\<not> issue_pattern ''ERROR'' (js ''Could not open story.ink'')
   \<and> \<not> issue_pattern ''WARNING'' (js ''Could not open story.ink'')
   \<and> createESBuildMessageForIssue (example_runtime (example_compiler [] None None)) example_files
        (js ''Could not open story.ink'')
        \<lparr>fileCacheForBuild = Map.empty, inkContainingDir = js ''/proj''\<rparr>
      = Inr (Error \<lparr>text = js ''Could not open story.ink'', location = None\<rparr>,
             \<lparr>fileCacheForBuild = Map.empty, inkContainingDir = js ''/proj''\<rparr>)
   \<and> translate_issues (example_runtime (example_compiler [] None None)) example_files
        [js ''Could not open story.ink'', js ''WARNING: 'story.ink' line 2: Blank choice'']
        \<lparr>fileCacheForBuild = Map.empty, inkContainingDir = js ''/proj''\<rparr> [] []
      = Inr ([\<lparr>text = js ''Could not open story.ink'', location = None\<rparr>],
             [\<lparr>text = js ''Blank choice'',
               location = Some \<lparr>file = js ''/proj/story.ink'', line = 2, lineText = Some (js ''* '')\<rparr>\<rparr>])
   \<and> length [\<lparr>text = js ''Could not open story.ink'', location = None\<rparr>]
       + length [\<lparr>text = js ''Blank choice'',
               location = Some \<lparr>file = js ''/proj/story.ink'', line = 2, lineText = Some (js ''* '')\<rparr>\<rparr>]
       = length [js ''Could not open story.ink'', js ''WARNING: 'story.ink' line 2: Blank choice'']"
proof -
  let ?rt = "example_runtime (example_compiler [] None None)"
  let ?ctx = "\<lparr>fileCacheForBuild = Map.empty, inkContainingDir = js ''/proj''\<rparr>"
  have e: "regex_match errorRegex (js ''Could not open story.ink'') = None" by code_simp
  have w: "regex_match warningRegex (js ''Could not open story.ink'') = None" by code_simp
  have h: "\<not> issue_pattern ''ERROR'' (js ''Could not open story.ink'')
     \<and> \<not> issue_pattern ''WARNING'' (js ''Could not open story.ink'')"
    using e w by (simp add: issue_pattern_ERROR issue_pattern_WARNING)
  have t: "translate_issues ?rt example_files
        [js ''Could not open story.ink'', js ''WARNING: 'story.ink' line 2: Blank choice'']
        ?ctx [] []
      = Inr ([\<lparr>text = js ''Could not open story.ink'', location = None\<rparr>],
             [\<lparr>text = js ''Blank choice'',
               location = Some \<lparr>file = js ''/proj/story.ink'', line = 2, lineText = Some (js ''* '')\<rparr>\<rparr>])"
    by code_simp
  show ?thesis
    using h t C4_unmatched_issue[of "js ''Could not open story.ink''" ?rt example_files ?ctx
        "[js ''Could not open story.ink'', js ''WARNING: 'story.ink' line 2: Blank choice'']"
        "[\<lparr>text = js ''Could not open story.ink'', location = None\<rparr>]"
        "[\<lparr>text = js ''Blank choice'',
               location = Some \<lparr>file = js ''/proj/story.ink'', line = 2, lineText = Some (js ''* '')\<rparr>\<rparr>]"]
    by simp
qed

lemma element_line:
  "element xs (int ln - 1) = (if 1 \<le> ln \<and> ln \<le> length xs then Some (xs ! (ln - 1)) else None)"
  by (auto simp: element_def nat_diff_distrib' )

lemma readFileForMessage_fresh:
  "readFileForMessage rt files f ln txt \<lparr>fileCacheForBuild = Map.empty, inkContainingDir = dir\<rparr> =
     (case fs_readFile_utf8 rt files (path_resolve rt [dir, f]) of
        Inl e \<Rightarrow> Inl e
      | Inr fileText \<Rightarrow>
          Inr (\<lparr>text = txt,
                location = Some \<lparr>file = path_resolve rt [dir, f], line = ln,
                  lineText = (if 1 \<le> ln \<and> ln \<le> length (split_newline fileText)
                              then Some (split_newline fileText ! (ln - 1)) else None)\<rparr>\<rparr>,
               \<lparr>fileCacheForBuild = [path_resolve rt [dir, f] \<mapsto> fileText], inkContainingDir = dir\<rparr>))"
  by (simp add: readFileForMessage_def Let_def element_line split: sum.splits)

lemma translated_error:
  assumes "regex_match errorRegex issue = Some m"
  shows "translated rt files dir issue =
     (case fs_readFile_utf8 rt files (path_resolve rt [dir, match_group m 1]) of
        Inl e \<Rightarrow> Inl e
      | Inr fileText \<Rightarrow>
          Inr (Error \<lparr>text = match_group m 3,
                location = Some \<lparr>file = path_resolve rt [dir, match_group m 1],
                  line = parseInt (match_group m 2),
                  lineText = (if 1 \<le> parseInt (match_group m 2)
                                   \<and> parseInt (match_group m 2) \<le> length (split_newline fileText)
                              then Some (split_newline fileText ! (parseInt (match_group m 2) - 1))
                              else None)\<rparr>\<rparr>))"
  using assms
  by (simp add: translated_def createESBuildMessageForIssue_def readFileForMessage_fresh
      split: sum.splits)

lemma translated_warning:
  assumes "regex_match errorRegex issue = None" "regex_match warningRegex issue = Some m"
  shows "translated rt files dir issue =
     (case fs_readFile_utf8 rt files (path_resolve rt [dir, match_group m 1]) of
        Inl e \<Rightarrow> Inl e
      | Inr fileText \<Rightarrow>
          Inr (Warning \<lparr>text = match_group m 3,
                location = Some \<lparr>file = path_resolve rt [dir, match_group m 1],
                  line = parseInt (match_group m 2),
                  lineText = (if 1 \<le> parseInt (match_group m 2)
                                   \<and> parseInt (match_group m 2) \<le> length (split_newline fileText)
                              then Some (split_newline fileText ! (parseInt (match_group m 2) - 1))
                              else None)\<rparr>\<rparr>))"
  using assms
  by (simp add: translated_def createESBuildMessageForIssue_def readFileForMessage_fresh
      split: sum.splits)


text \<open>
  Claim C9. An issue in which the error pattern matches anywhere is never made a warning,
  also when the warning pattern matches it too: its translation either fails on the read
  of the file, or gives a located error message.
\<close>

theorem C9_error_pattern_first:
  assumes "issue_pattern ''ERROR'' issue"
  shows "(\<exists>e. createESBuildMessageForIssue rt files issue ctx = Inl e)
     \<or> (\<exists>m ctx'. createESBuildMessageForIssue rt files issue ctx = Inr (Error m, ctx')
           \<and> location m \<noteq> None)"
proof -
  from assms obtain em where em: "regex_match errorRegex issue = Some em"
    by (auto simp: issue_pattern_ERROR)
  show ?thesis
  proof (cases "readFileForMessage rt files (match_group em 1) (parseInt (match_group em 2))
                  (match_group em 3) ctx")
    case (Inl e)
    with em show ?thesis by (simp add: createESBuildMessageForIssue_def)
  next
    case (Inr r)
    obtain m ctx' where r: "r = (m, ctx')" by (cases r)
    from Inr r have "location m \<noteq> None"
      by (auto simp: readFileForMessage_def Let_def split: sum.splits option.splits)
    with em Inr r show ?thesis by (simp add: createESBuildMessageForIssue_def)
  qed
qed

text \<open>
  Claim C5. The loop translates the accumulated issues in list order, each as it is
  translated on its own, and stops at the first read that fails. When none fails,
  \<open>errors\<close> holds the error messages and \<open>warnings\<close> the warning messages, each in the order
  of the issues they come from.
\<close>

theorem C5_translation_order:
  "translate_issues rt files iss \<lparr>fileCacheForBuild = Map.empty, inkContainingDir = dir\<rparr> [] [] =
     (case in_order (map (translated rt files dir) iss) of
        Inl e \<Rightarrow> Inl e
      | Inr ms \<Rightarrow> Inr (errors_of ms, warnings_of ms))"
proof -
  have "translate_issues rt files iss \<lparr>fileCacheForBuild = Map.empty, inkContainingDir = dir\<rparr> [] [] =
     (case in_order (map (translated rt files dir) iss) of
        Inl e \<Rightarrow> Inl e
      | Inr ms \<Rightarrow> Inr ([] @ errors_of ms, [] @ warnings_of ms))"
    using translate_issues_in_order[OF cache_consistent_empty] by simp
  then show ?thesis by (simp split: sum.splits)
qed

section \<open>The callback\<close>

lemma translate_issues_initial:
  "translate_issues rt files iss \<lparr>fileCacheForBuild = Map.empty, inkContainingDir = dir\<rparr> [] [] =
     (case in_order (map (translated rt files dir) iss) of
        Inl e \<Rightarrow> Inl e
      | Inr ms \<Rightarrow> Inr (errors_of ms, warnings_of ms))"
proof -
  have "translate_issues rt files iss \<lparr>fileCacheForBuild = Map.empty, inkContainingDir = dir\<rparr> [] [] =
     (case in_order (map (translated rt files dir) iss) of
        Inl e \<Rightarrow> Inl e
      | Inr ms \<Rightarrow> Inr ([] @ errors_of ms, [] @ warnings_of ms))"
    using translate_issues_in_order[OF cache_consistent_empty] by simp
  then show ?thesis by (simp split: sum.splits)
qed

lemma onLoad_spawned:
  assumes "fs_mkdir files (outputDir rt options) = Inr files1"
  shows "onLoad rt options path files =
     after_spawn rt options path
       (child_process_spawn rt (getInklecateBinaryPath rt) (inklecateArgs rt options path) files1)"
  using assms by (simp add: onLoad_def)

lemma fs_rm_cases:
  "fs_rm files p =
     (if files p = Some Directory then Inl (EISDIR p) else Inr (files(p := None)))"
  by (simp add: fs_rm_def split: option.splits node.splits)

lemma after_spawn_finally:
  "after_spawn rt options path c =
     (if files_after c (outputPath rt options) = Some Directory
      then (Inl (EISDIR (outputPath rt options)), files_after c)
      else (try_block rt options (foldl on_readable initial (readable c)) (settled c)
              \<lparr>fileCacheForBuild = Map.empty, inkContainingDir = path_dirname rt path\<rparr>
              (outputPath rt options) (files_after c),
            (files_after c)(outputPath rt options := None)))"
  by (simp add: after_spawn_def Let_def fs_rm_cases)

lemma try_block_translation:
  "try_block rt options v None \<lparr>fileCacheForBuild = Map.empty, inkContainingDir = dir\<rparr> p files =
     (case in_order (map (translated rt files dir) (issues v)) of
        Inl e \<Rightarrow> Inl e
      | Inr ms \<Rightarrow>
          (case (if truthy_bool (optional options options_stats) then stats v else None) of
             Some st \<Rightarrow>
               Inr \<lparr>errors = errors_of ms, warnings = warnings_of ms,
                    contents = Some (StringContents (JSON_stringify rt st)),
                    loader = Some (js ''json'')\<rparr>
           | None \<Rightarrow>
               if \<not> success v then
                 Inr \<lparr>errors = errors_of ms, warnings = warnings_of ms, contents = None, loader = None\<rparr>
               else if exported v then
                 (case fs_readFile files p of
                    Inl e \<Rightarrow> Inl e
                  | Inr bytes \<Rightarrow>
                      Inr \<lparr>errors = errors_of ms, warnings = warnings_of ms,
                           contents = Some (BufferContents bytes), loader = Some (js ''json'')\<rparr>)
               else
                 Inr \<lparr>errors = errors_of ms, warnings = warnings_of ms, contents = None,
                      loader = Some (js ''json'')\<rparr>))"
proof -
  show ?thesis
    unfolding try_block_def translate_issues_initial
    by (simp split: sum.splits option.splits)
qed

lemma try_block_settled:
  "try_block rt options v (Some e) ctx p files = Inl e"
  by (simp add: try_block_def)

lemma in_order_first_failure:
  assumes "\<forall>x\<in>set xs. \<exists>m. f x = Inr m" and "f y = Inl e"
  shows "in_order (map f (xs @ y # zs)) = Inl e"
  using assms
proof (induction xs)
  case Nil
  then show ?case by simp
next
  case (Cons x xs)
  then obtain m where "f x = Inr m" by auto
  with Cons show ?case by simp
qed

text \<open>
  Claim C1, as amended. Every invocation that has created the temporary directory ends
  with \<open>fs.rm\<close> on the output path, whether the guarded block has returned a story,
  returned a failure result or thrown. Afterwards no file is at the output path. The
  removal succeeds on a file and on a missing path alike: then the outcome of the block is
  the outcome of the invocation, and nothing but that path has changed. A removal that
  fails is not suppressed: with a directory at the output path the invocation rejects with
  the error of the removal, whatever the block had returned.
\<close>

theorem C1_cleanup:
  assumes "fs_mkdir files (outputDir rt options) = Inr files1"
    and "c = child_process_spawn rt (getInklecateBinaryPath rt) (inklecateArgs rt options path) files1"
  shows "(\<forall>bytes. snd (onLoad rt options path files) (outputPath rt options) \<noteq> Some (File bytes))
    \<and> (files_after c (outputPath rt options) \<noteq> Some Directory \<longrightarrow>
         onLoad rt options path files =
           (try_block rt options (foldl on_readable initial (readable c)) (settled c)
              \<lparr>fileCacheForBuild = Map.empty, inkContainingDir = path_dirname rt path\<rparr>
              (outputPath rt options) (files_after c),
            (files_after c)(outputPath rt options := None)))
    \<and> (files_after c (outputPath rt options) = Some Directory \<longrightarrow>
         onLoad rt options path files = (Inl (EISDIR (outputPath rt options)), files_after c))"
  using assms by (simp add: onLoad_spawned after_spawn_finally)

text \<open>
  Claim C10, as amended. Let the process have exited, and let the first accumulated issue
  whose translation fails be a located one whose resolved file cannot be read (such a path
  is never in the cache, which holds only what reads have given). Then the error of that
  read leaves the guarded block: no result and no diagnostics are returned. The removal of
  the output path runs all the same. When it succeeds, the invocation rejects with the
  error of the read and the output path is gone; when the removal fails too (a directory
  at the output path), the invocation rejects with the error of the removal instead.
\<close>

theorem C10_read_failure:
  assumes "fs_mkdir files (outputDir rt options) = Inr files1"
    and "c = child_process_spawn rt (getInklecateBinaryPath rt) (inklecateArgs rt options path) files1"
    and "settled c = None"
    and "issues (foldl on_readable initial (readable c)) = before @ issue # rest"
    and "\<forall>i\<in>set before. \<exists>m. translated rt (files_after c) (path_dirname rt path) i = Inr m"
    and "regex_match errorRegex issue = Some m
         \<or> regex_match errorRegex issue = None \<and> regex_match warningRegex issue = Some m"
    and "fs_readFile_utf8 rt (files_after c) (path_resolve rt [path_dirname rt path, match_group m 1])
           = Inl e"
  shows "try_block rt options (foldl on_readable initial (readable c)) (settled c)
              \<lparr>fileCacheForBuild = Map.empty, inkContainingDir = path_dirname rt path\<rparr>
              (outputPath rt options) (files_after c) = Inl e
    \<and> (files_after c (outputPath rt options) \<noteq> Some Directory \<longrightarrow>
         onLoad rt options path files = (Inl e, (files_after c)(outputPath rt options := None)))
    \<and> (files_after c (outputPath rt options) = Some Directory \<longrightarrow>
         onLoad rt options path files = (Inl (EISDIR (outputPath rt options)), files_after c))"
proof -
  have "translated rt (files_after c) (path_dirname rt path) issue = Inl e"
    using assms(6,7) translated_error[of issue m rt "files_after c" "path_dirname rt path"]
      translated_warning[of issue m rt "files_after c" "path_dirname rt path"]
    by auto
  from in_order_first_failure[of before "translated rt (files_after c) (path_dirname rt path)", OF assms(5) this]
  have "in_order (map (translated rt (files_after c) (path_dirname rt path))
          (issues (foldl on_readable initial (readable c)))) = Inl e"
    using assms(4) by simp
  then have "try_block rt options (foldl on_readable initial (readable c)) (settled c)
              \<lparr>fileCacheForBuild = Map.empty, inkContainingDir = path_dirname rt path\<rparr>
              (outputPath rt options) (files_after c) = Inl e"
    using assms(3) by (simp add: try_block_translation)
  then show ?thesis
    using assms(1,2) by (simp add: onLoad_spawned after_spawn_finally)
qed

lemma onLoad_returns:
  assumes "fs_mkdir files (outputDir rt options) = Inr files1"
    and "c = child_process_spawn rt (getInklecateBinaryPath rt) (inklecateArgs rt options path) files1"
    and "fst (onLoad rt options path files) = Inr result"
  shows "settled c = None"
    and "files_after c (outputPath rt options) \<noteq> Some Directory"
    and "try_block rt options (foldl on_readable initial (readable c)) None
              \<lparr>fileCacheForBuild = Map.empty, inkContainingDir = path_dirname rt path\<rparr>
              (outputPath rt options) (files_after c) = Inr result"
proof -
  from assms show d: "files_after c (outputPath rt options) \<noteq> Some Directory"
    by (auto simp: onLoad_spawned after_spawn_finally split: if_splits)
  with assms have t: "try_block rt options (foldl on_readable initial (readable c)) (settled c)
              \<lparr>fileCacheForBuild = Map.empty, inkContainingDir = path_dirname rt path\<rparr>
              (outputPath rt options) (files_after c) = Inr result"
    by (simp add: onLoad_spawned after_spawn_finally)
  then show s: "settled c = None"
    by (cases "settled c") (simp_all add: try_block_settled)
  from t s show "try_block rt options (foldl on_readable initial (readable c)) None
              \<lparr>fileCacheForBuild = Map.empty, inkContainingDir = path_dirname rt path\<rparr>
              (outputPath rt options) (files_after c) = Inr result"
    by simp
qed

text \<open>
  Claim C2. In every invocation with the \<open>stats\<close> option set in which a \<open>stats\<close> object has
  arrived, the result that is returned has as contents \<open>JSON.stringify\<close> of the
  \<open>stats\<close> object of the last event that carried one, the loader \<open>json\<close>, and the errors and
  warnings of the translation of the accumulated issues. The guarded block returns this result
  whatever the success flag, the export flag and the output path are: the branch comes
  before the success flag is read, and nothing is read at the output path.
\<close>

theorem C2_stats_result:
  assumes "fs_mkdir files (outputDir rt options) = Inr files1"
    and "c = child_process_spawn rt (getInklecateBinaryPath rt) (inklecateArgs rt options path) files1"
    and "truthy_bool (optional options options_stats)"
    and "last_value key_stats (parsed (readable c)) = Some st"
    and "fst (onLoad rt options path files) = Inr result"
  shows "contents result = Some (StringContents (JSON_stringify rt st))
    \<and> loader result = Some (js ''json'')
    \<and> translate_issues rt (files_after c) (concat (List.map_filter key_issues (parsed (readable c))))
          \<lparr>fileCacheForBuild = Map.empty, inkContainingDir = path_dirname rt path\<rparr> [] []
        = Inr (errors result, warnings result)
    \<and> (\<forall>p b x. try_block rt options
                   ((foldl on_readable initial (readable c))\<lparr>success := b, exported := x\<rparr>) None
                   \<lparr>fileCacheForBuild = Map.empty, inkContainingDir = path_dirname rt path\<rparr>
                   p (files_after c) = Inr result)"
proof -
  let ?v = "foldl on_readable initial (readable c)"
  let ?dir = "path_dirname rt path"
  have st: "stats ?v = Some st" using assms(4) by (simp add: accumulated_stats)
  have iss: "issues ?v = concat (List.map_filter key_issues (parsed (readable c)))"
    by (simp add: accumulated_issues)
  from onLoad_returns(3)[OF assms(1,2,5)]
  have t: "try_block rt options ?v None
              \<lparr>fileCacheForBuild = Map.empty, inkContainingDir = ?dir\<rparr>
              (outputPath rt options) (files_after c) = Inr result" .
  then obtain ms where ms: "in_order (map (translated rt (files_after c) ?dir) (issues ?v)) = Inr ms"
    by (auto simp: try_block_translation split: sum.splits)
  with t st assms(3) have r: "result = \<lparr>errors = errors_of ms, warnings = warnings_of ms,
                    contents = Some (StringContents (JSON_stringify rt st)),
                    loader = Some (js ''json'')\<rparr>"
    by (simp add: try_block_translation)
  have tr: "translate_issues rt (files_after c) (issues ?v)
          \<lparr>fileCacheForBuild = Map.empty, inkContainingDir = ?dir\<rparr> [] []
        = Inr (errors result, warnings result)"
    using ms r by (simp add: translate_issues_initial)
  have ind: "\<And>p b x. try_block rt options (?v\<lparr>success := b, exported := x\<rparr>) None
                   \<lparr>fileCacheForBuild = Map.empty, inkContainingDir = ?dir\<rparr>
                   p (files_after c) = Inr result"
    using ms r st assms(3) by (simp add: try_block_translation)
  show ?thesis using r tr ind iss by simp
qed

text \<open>
  Claim C3, as amended. In every invocation that the \<open>stats\<close> branch does not resolve, the
  result that is returned has the errors and warnings of the translation of the
  accumulated issues. When the success flag is false it has no contents and no loader.
  When the success flag is true its loader is \<open>json\<close>, and its contents are the bytes of the
  output file when the export flag is true, that is when the last \<open>export-complete\<close> value
  received is \<open>true\<close>, and undefined otherwise.
\<close>

theorem C3_story_result:
  assumes "fs_mkdir files (outputDir rt options) = Inr files1"
    and "c = child_process_spawn rt (getInklecateBinaryPath rt) (inklecateArgs rt options path) files1"
    and "\<not> (truthy_bool (optional options options_stats)
            \<and> last_value key_stats (parsed (readable c)) \<noteq> None)"
    and "fst (onLoad rt options path files) = Inr result"
  shows "translate_issues rt (files_after c) (concat (List.map_filter key_issues (parsed (readable c))))
          \<lparr>fileCacheForBuild = Map.empty, inkContainingDir = path_dirname rt path\<rparr> [] []
        = Inr (errors result, warnings result)
    \<and> (if last_value key_compile_success (parsed (readable c)) = Some True
        then loader result = Some (js ''json'')
             \<and> (if last_value key_export_complete (parsed (readable c)) = Some True
                 then \<exists>bytes. files_after c (outputPath rt options) = Some (File bytes)
                        \<and> contents result = Some (BufferContents bytes)
                 else contents result = None)
        else contents result = None \<and> loader result = None)"
proof -
  let ?v = "foldl on_readable initial (readable c)"
  let ?dir = "path_dirname rt path"
  have st: "(if truthy_bool (optional options options_stats) then stats ?v else None) = None"
    using assms(3) by (auto simp: accumulated_stats)
  have iss: "issues ?v = concat (List.map_filter key_issues (parsed (readable c)))"
    by (simp add: accumulated_issues)
  have su: "success ?v = (last_value key_compile_success (parsed (readable c)) = Some True)"
    by (simp add: accumulated_success split: option.splits)
  have ex: "exported ?v = (last_value key_export_complete (parsed (readable c)) = Some True)"
    by (simp add: accumulated_exported split: option.splits)
  from onLoad_returns(3)[OF assms(1,2,4)]
  have t: "try_block rt options ?v None
              \<lparr>fileCacheForBuild = Map.empty, inkContainingDir = ?dir\<rparr>
              (outputPath rt options) (files_after c) = Inr result" .
  then obtain ms where ms: "in_order (map (translated rt (files_after c) ?dir) (issues ?v)) = Inr ms"
    by (auto simp: try_block_translation split: sum.splits)
  have tr: "translate_issues rt (files_after c) (issues ?v)
          \<lparr>fileCacheForBuild = Map.empty, inkContainingDir = ?dir\<rparr> [] []
        = Inr (errors result, warnings result)"
    using t ms st
    by (auto simp: try_block_translation translate_issues_initial split: if_splits sum.splits)
  have rest: "if success ?v
        then loader result = Some (js ''json'')
             \<and> (if exported ?v
                 then \<exists>bytes. files_after c (outputPath rt options) = Some (File bytes)
                        \<and> contents result = Some (BufferContents bytes)
                 else contents result = None)
        else contents result = None \<and> loader result = None"
    using t ms st
    by (auto simp: try_block_translation fs_readFile_def
        split: if_splits sum.splits option.splits node.splits)
  show ?thesis using tr rest iss su ex by simp
qed

text \<open>
  Claim C8. The arguments are, in order: \<open>-j\<close>; \<open>-c\<close> when \<open>count\<close> is set; \<open>-s\<close> when
  \<open>stats\<close> is set; \<open>-x\<close> and the plugins directory when \<open>inklecatePluginsDir\<close> is set; \<open>-o\<close> and the
  output path, which is the fresh UUID with \<open>.json\<close> resolved against the resolved temporary
  directory (\<open>tempOutputDir\<close>, or \<open>"."\<close>); the input path. An option is set when the
  source's \<open>if\<close> takes it as true: a boolean that is \<open>true\<close>, a string that is not empty.
  The temporary directory is created when it is absent, and the process is spawned with
  these arguments once it is there.
\<close>

theorem C8_arguments:
  "inklecateArgs rt options path =
     [js ''-j'']
     @ (if optional options options_count = Some True then [js ''-c''] else [])
     @ (if optional options options_stats = Some True then [js ''-s''] else [])
     @ (case optional options options_inklecatePluginsDir of
          None \<Rightarrow> []
        | Some d \<Rightarrow> if d = [] then [] else [js ''-x'', d])
     @ [js ''-o'',
        path_resolve rt
          [path_resolve rt [case optional options options_tempOutputDir of
                              None \<Rightarrow> js ''.'' | Some d \<Rightarrow> d],
           crypto_randomUUID rt @ js ''.json''],
        path]
   \<and> outputDir rt options =
       path_resolve rt [case optional options options_tempOutputDir of None \<Rightarrow> js ''.'' | Some d \<Rightarrow> d]
   \<and> (files (outputDir rt options) = None \<longrightarrow>
        (\<exists>files1. fs_mkdir files (outputDir rt options) = Inr files1))
   \<and> (fs_mkdir files (outputDir rt options) = Inr files1 \<longrightarrow>
        files1 (outputDir rt options) = Some Directory
        \<and> onLoad rt options path files =
            after_spawn rt options path
              (child_process_spawn rt (getInklecateBinaryPath rt)
                 (inklecateArgs rt options path) files1))"
proof (intro conjI impI)
  show "inklecateArgs rt options path =
     [js ''-j'']
     @ (if optional options options_count = Some True then [js ''-c''] else [])
     @ (if optional options options_stats = Some True then [js ''-s''] else [])
     @ (case optional options options_inklecatePluginsDir of
          None \<Rightarrow> []
        | Some d \<Rightarrow> if d = [] then [] else [js ''-x'', d])
     @ [js ''-o'',
        path_resolve rt
          [path_resolve rt [case optional options options_tempOutputDir of
                              None \<Rightarrow> js ''.'' | Some d \<Rightarrow> d],
           crypto_randomUUID rt @ js ''.json''],
        path]"
    by (simp add: inklecateArgs_def Let_def truthy_bool_def truthy_string_def outputPath_def
        outputDir_def split: option.splits)
next
  show "outputDir rt options =
       path_resolve rt [case optional options options_tempOutputDir of None \<Rightarrow> js ''.'' | Some d \<Rightarrow> d]"
    by (simp add: outputDir_def)
next
  assume "files (outputDir rt options) = None"
  then show "\<exists>files1. fs_mkdir files (outputDir rt options) = Inr files1"
    by (simp add: fs_mkdir_def)
next
  assume "fs_mkdir files (outputDir rt options) = Inr files1"
  then show "files1 (outputDir rt options) = Some Directory"
    by (auto simp: fs_mkdir_def split: option.splits node.splits)
next
  assume "fs_mkdir files (outputDir rt options) = Inr files1"
  then show "onLoad rt options path files =
            after_spawn rt options path
              (child_process_spawn rt (getInklecateBinaryPath rt)
                 (inklecateArgs rt options path) files1)"
    by (rule onLoad_spawned)
qed

section \<open>The model run on examples\<close>

lemma example_mkdir:
  "fs_mkdir example_files (outputDir (example_runtime k) options)
     = Inr (example_files(outputDir (example_runtime k) options \<mapsto> Directory))
   \<or> outputDir (example_runtime k) options = story"
  by (auto simp: fs_mkdir_def example_files_def split: option.splits node.splits)

lemma example_mkdir_work:
  "fs_mkdir example_files (outputDir (example_runtime k) None)
     = Inr (example_files(outputDir (example_runtime k) None \<mapsto> Directory))"
proof -
  have "outputDir (example_runtime k) None \<noteq> story"
    by (simp add: outputDir_def example_runtime_def optional_def example_join_def js_def story_def)
  with example_mkdir[of k None] show ?thesis by simp
qed

lemma example_mkdir_tmp:
  "fs_mkdir example_files (outputDir (example_runtime k) (Some stats_options))
     = Inr (example_files(outputDir (example_runtime k) (Some stats_options) \<mapsto> Directory))"
proof -
  have "outputDir (example_runtime k) (Some stats_options) \<noteq> story"
    by (simp add: outputDir_def example_runtime_def optional_def example_join_def js_def
        stats_options_def story_def)
  with example_mkdir[of k "Some stats_options"] show ?thesis by simp
qed

text \<open>
  The amended claim on a run with one warning: the story is returned and the output file
  is gone.
\<close>

theorem C1_cleanup_witness:
  "files_after (example_child warning_compiler None) (outputPath (example_runtime warning_compiler) None)
     = Some (File (ascii ''{}''))
   \<and> fst (onLoad (example_runtime warning_compiler) None story example_files)
     = Inr \<lparr>errors = [],
            warnings = [\<lparr>text = js ''Blank choice'',
                         location = Some \<lparr>file = js ''/proj/story.ink'', line = 2,
                                          lineText = Some (js ''* '')\<rparr>\<rparr>],
            contents = Some (BufferContents (ascii ''{}'')),
            loader = Some (js ''json'')\<rparr>
   \<and> snd (onLoad (example_runtime warning_compiler) None story example_files)
       (outputPath (example_runtime warning_compiler) None) = None"
proof -
  let ?rt = "example_runtime warning_compiler"
  let ?c = "example_child warning_compiler None"
  have d: "files_after ?c (outputPath ?rt None) = Some (File (ascii ''{}''))"
    by code_simp
  have t: "try_block ?rt None (foldl on_readable initial (readable ?c)) (settled ?c)
              \<lparr>fileCacheForBuild = Map.empty, inkContainingDir = path_dirname ?rt story\<rparr>
              (outputPath ?rt None) (files_after ?c)
     = Inr \<lparr>errors = [],
            warnings = [\<lparr>text = js ''Blank choice'',
                         location = Some \<lparr>file = js ''/proj/story.ink'', line = 2,
                                          lineText = Some (js ''* '')\<rparr>\<rparr>],
            contents = Some (BufferContents (ascii ''{}'')),
            loader = Some (js ''json'')\<rparr>"
    by code_simp
  from C1_cleanup[OF example_mkdir_work example_child_def, of warning_compiler] d
  have "onLoad ?rt None story example_files =
           (try_block ?rt None (foldl on_readable initial (readable ?c)) (settled ?c)
              \<lparr>fileCacheForBuild = Map.empty, inkContainingDir = path_dirname ?rt story\<rparr>
              (outputPath ?rt None) (files_after ?c),
            (files_after ?c)(outputPath ?rt None := None))"
    by simp
  with d t show ?thesis by simp
qed

text \<open>
  Claim C1 as stated has failures of the removal suppressed. A compiler that leaves a
  directory at the output path shows otherwise: the guarded block returns a result, the
  invocation rejects with the error of the removal, and the directory is still there.
\<close>

theorem C1_counterexample:
  "try_block (example_runtime directory_compiler) None
       (foldl on_readable initial (readable (example_child directory_compiler None)))
       (settled (example_child directory_compiler None))
       \<lparr>fileCacheForBuild = Map.empty,
        inkContainingDir = path_dirname (example_runtime directory_compiler) story\<rparr>
       (outputPath (example_runtime directory_compiler) None)
       (files_after (example_child directory_compiler None))
     = Inr \<lparr>errors = [], warnings = [], contents = None, loader = Some (js ''json'')\<rparr>
   \<and> onLoad (example_runtime directory_compiler) None story example_files
     = (Inl (EISDIR (js ''/work/6f1c.json'')), files_after (example_child directory_compiler None))
   \<and> files_after (example_child directory_compiler None) (js ''/work/6f1c.json'') = Some Directory"
proof -
  let ?rt = "example_runtime directory_compiler"
  let ?c = "example_child directory_compiler None"
  have p: "outputPath ?rt None = js ''/work/6f1c.json''" by code_simp
  have d: "files_after ?c (js ''/work/6f1c.json'') = Some Directory" by code_simp
  have t: "try_block ?rt None (foldl on_readable initial (readable ?c)) (settled ?c)
       \<lparr>fileCacheForBuild = Map.empty, inkContainingDir = path_dirname ?rt story\<rparr>
       (outputPath ?rt None) (files_after ?c)
     = Inr \<lparr>errors = [], warnings = [], contents = None, loader = Some (js ''json'')\<rparr>"
    by code_simp
  have o: "onLoad ?rt None story example_files = after_spawn ?rt None story ?c"
    using onLoad_spawned[OF example_mkdir_work, of directory_compiler story]
    by (simp add: example_child_def)
  show ?thesis
    using t d p o by (simp add: after_spawn_finally)
qed

text \<open>
  Claim C2 on a run that reports \<open>compile-success: false\<close> and then statistics.
\<close>

theorem C2_stats_witness:
  "truthy_bool (optional (Some stats_options) options_stats)
   \<and> last_value key_stats (parsed (readable (example_child stats_compiler (Some stats_options))))
       = Some (js ''{}'')
   \<and> last_value key_compile_success (parsed (readable (example_child stats_compiler (Some stats_options))))
       = Some False
   \<and> fst (onLoad (example_runtime stats_compiler) (Some stats_options) story example_files)
       = Inr \<lparr>errors = [\<lparr>text = js ''Something went wrong'', location = None\<rparr>], warnings = [],
              contents = Some (StringContents (js ''{}'')), loader = Some (js ''json'')\<rparr>
   \<and> contents \<lparr>errors = [\<lparr>text = js ''Something went wrong'', location = None\<rparr>], warnings = [],
              contents = Some (StringContents (js ''{}'')), loader = Some (js ''json'')\<rparr>
       = Some (StringContents (JSON_stringify (example_runtime stats_compiler) (js ''{}'')))"
proof -
  let ?rt = "example_runtime stats_compiler"
  let ?c = "example_child stats_compiler (Some stats_options)"
  let ?r = "\<lparr>errors = [\<lparr>text = js ''Something went wrong'', location = None\<rparr>], warnings = [],
              contents = Some (StringContents (js ''{}'')), loader = Some (js ''json'')\<rparr>"
  have h3: "truthy_bool (optional (Some stats_options) options_stats)" by code_simp
  have h4: "last_value key_stats (parsed (readable ?c)) = Some (js ''{}'')" by code_simp
  have f: "last_value key_compile_success (parsed (readable ?c)) = Some False" by code_simp
  have h5: "fst (onLoad ?rt (Some stats_options) story example_files) = Inr ?r" by code_simp
  from C2_stats_result[OF example_mkdir_tmp example_child_def h3 h4 h5]
  have "contents ?r = Some (StringContents (JSON_stringify ?rt (js ''{}'')))" by blast
  with h3 h4 f h5 show ?thesis by blast
qed

text \<open>
  The amended claim on a run with one warning and an exported story.
\<close>

theorem C3_story_witness:
  "\<not> (truthy_bool (optional None options_stats)
        \<and> last_value key_stats (parsed (readable (example_child warning_compiler None))) \<noteq> None)
   \<and> last_value key_compile_success (parsed (readable (example_child warning_compiler None))) = Some True
   \<and> last_value key_export_complete (parsed (readable (example_child warning_compiler None))) = Some True
   \<and> fst (onLoad (example_runtime warning_compiler) None story example_files)
     = Inr \<lparr>errors = [],
            warnings = [\<lparr>text = js ''Blank choice'',
                         location = Some \<lparr>file = js ''/proj/story.ink'', line = 2,
                                          lineText = Some (js ''* '')\<rparr>\<rparr>],
            contents = Some (BufferContents (ascii ''{}'')),
            loader = Some (js ''json'')\<rparr>
   \<and> (\<exists>bytes. files_after (example_child warning_compiler None)
                  (outputPath (example_runtime warning_compiler) None) = Some (File bytes)
          \<and> Some (BufferContents (ascii ''{}'')) = Some (BufferContents bytes))"
proof -
  let ?rt = "example_runtime warning_compiler"
  let ?c = "example_child warning_compiler None"
  let ?r = "\<lparr>errors = [],
            warnings = [\<lparr>text = js ''Blank choice'',
                         location = Some \<lparr>file = js ''/proj/story.ink'', line = 2,
                                          lineText = Some (js ''* '')\<rparr>\<rparr>],
            contents = Some (BufferContents (ascii ''{}'')),
            loader = Some (js ''json'')\<rparr>"
  have h3: "\<not> (truthy_bool (optional None options_stats)
        \<and> last_value key_stats (parsed (readable ?c)) \<noteq> None)"
    by (simp add: optional_def truthy_bool_def)
  have s: "last_value key_compile_success (parsed (readable ?c)) = Some True" by code_simp
  have e: "last_value key_export_complete (parsed (readable ?c)) = Some True" by code_simp
  have h4: "fst (onLoad ?rt None story example_files) = Inr ?r" by code_simp
  from C3_story_result[OF example_mkdir_work example_child_def h3 h4] s e
  have "\<exists>bytes. files_after ?c (outputPath ?rt None) = Some (File bytes)
          \<and> contents ?r = Some (BufferContents bytes)"
    by simp
  then have "\<exists>bytes. files_after ?c (outputPath ?rt None) = Some (File bytes)
          \<and> Some (BufferContents (ascii ''{}'')) = Some (BufferContents bytes)"
    by simp
  with h3 s e h4 show ?thesis by blast
qed

text \<open>
  Claim C3 as stated has the output file read when an \<open>export-complete\<close> event was
  received. The program reads the export flag, which the last such event decides: after
  \<open>compile-success: true\<close> and \<open>export-complete: true\<close> in one event and
  \<open>export-complete: false\<close> in the next, with the story on disk, the result has no contents.
\<close>

theorem C3_counterexample:
  "List.map_filter key_export_complete (parsed (readable (example_child retracting_compiler None)))
     = [True, False]
   \<and> last_value key_compile_success (parsed (readable (example_child retracting_compiler None)))
     = Some True
   \<and> fs_readFile (files_after (example_child retracting_compiler None))
        (outputPath (example_runtime retracting_compiler) None) = Inr (ascii ''{}'')
   \<and> fst (onLoad (example_runtime retracting_compiler) None story example_files)
     = Inr \<lparr>errors = [], warnings = [], contents = None, loader = Some (js ''json'')\<rparr>"
  by code_simp


text \<open>
  Claim C9 on a line that starts as a warning and holds an error in its message: both
  patterns match, and the message is an error at the line of the inner match.
\<close>

theorem C9_error_first_witness:
  "issue_pattern ''ERROR'' nested_issue
   \<and> issue_pattern ''WARNING'' nested_issue
   \<and> (\<exists>ctx'. createESBuildMessageForIssue (example_runtime warning_compiler) example_files nested_issue
          \<lparr>fileCacheForBuild = Map.empty, inkContainingDir = js ''/proj''\<rparr>
        = Inr (Error \<lparr>text = js ''boom'',
                 location = Some \<lparr>file = js ''/proj/story.ink'', line = 3,
                                  lineText = Some (js ''-> END'')\<rparr>\<rparr>, ctx'))"
proof -
  let ?rt = "example_runtime warning_compiler"
  let ?ctx = "\<lparr>fileCacheForBuild = Map.empty, inkContainingDir = js ''/proj''\<rparr>"
  have e: "regex_match errorRegex nested_issue = Some [js ''story.ink'', js ''3'', js ''boom'']"
    by code_simp
  have w: "regex_match warningRegex nested_issue
      = Some [js ''story.ink' line 2: saw ERROR: 'story.ink'', js ''3'', js ''boom'']"
    by code_simp
  have he: "issue_pattern ''ERROR'' nested_issue" using e by (simp add: issue_pattern_ERROR)
  have hw: "issue_pattern ''WARNING'' nested_issue" using w by (simp add: issue_pattern_WARNING)
  have m: "map_sum (\<lambda>e. e) fst (createESBuildMessageForIssue ?rt example_files nested_issue ?ctx)
      = Inr (Error \<lparr>text = js ''boom'',
                 location = Some \<lparr>file = js ''/proj/story.ink'', line = 3,
                                  lineText = Some (js ''-> END'')\<rparr>\<rparr>)"
    by code_simp
  from C9_error_pattern_first[OF he, of ?rt example_files ?ctx] m
  have "\<exists>ctx'. createESBuildMessageForIssue ?rt example_files nested_issue ?ctx
        = Inr (Error \<lparr>text = js ''boom'',
                 location = Some \<lparr>file = js ''/proj/story.ink'', line = 3,
                                  lineText = Some (js ''-> END'')\<rparr>\<rparr>, ctx')"
    by auto
  with he hw show ?thesis by blast
qed

text \<open>
  Claim C8 with every option set, and with none.
\<close>

theorem C8_arguments_witness:
  "inklecateArgs (example_runtime stats_compiler) (Some stats_options) story
     = [js ''-j'', js ''-c'', js ''-s'', js ''-x'', js ''/plugins'', js ''-o'',
        js ''/tmp/ink/6f1c.json'', js ''/proj/story.ink'']
   \<and> inklecateArgs (example_runtime warning_compiler) None story
     = [js ''-j'', js ''-o'', js ''/work/6f1c.json'', js ''/proj/story.ink'']
   \<and> example_files (outputDir (example_runtime stats_compiler) (Some stats_options)) = None
   \<and> fs_mkdir example_files (outputDir (example_runtime stats_compiler) (Some stats_options))
     = Inr (example_files(outputDir (example_runtime stats_compiler) (Some stats_options) \<mapsto> Directory))
   \<and> (example_files(outputDir (example_runtime stats_compiler) (Some stats_options) \<mapsto> Directory))
       (js ''/tmp/ink'') = Some Directory"
proof -
  let ?rt = "example_runtime stats_compiler"
  have a: "[js ''-j'']
     @ (if optional (Some stats_options) options_count = Some True then [js ''-c''] else [])
     @ (if optional (Some stats_options) options_stats = Some True then [js ''-s''] else [])
     @ (case optional (Some stats_options) options_inklecatePluginsDir of
          None \<Rightarrow> []
        | Some d \<Rightarrow> if d = [] then [] else [js ''-x'', d])
     @ [js ''-o'',
        path_resolve ?rt
          [path_resolve ?rt [case optional (Some stats_options) options_tempOutputDir of
                              None \<Rightarrow> js ''.'' | Some d \<Rightarrow> d],
           crypto_randomUUID ?rt @ js ''.json''],
        story]
     = [js ''-j'', js ''-c'', js ''-s'', js ''-x'', js ''/plugins'', js ''-o'',
        js ''/tmp/ink/6f1c.json'', js ''/proj/story.ink'']"
    by code_simp
  have b: "inklecateArgs (example_runtime warning_compiler) None story
     = [js ''-j'', js ''-o'', js ''/work/6f1c.json'', js ''/proj/story.ink'']"
    by code_simp
  have d: "outputDir ?rt (Some stats_options) = js ''/tmp/ink''" by code_simp
  have n: "example_files (js ''/tmp/ink'') = None" by code_simp
  note t = C8_arguments[of ?rt "Some stats_options" story example_files
      "example_files(outputDir ?rt (Some stats_options) \<mapsto> Directory)"]
  from t a have "inklecateArgs ?rt (Some stats_options) story
     = [js ''-j'', js ''-c'', js ''-s'', js ''-x'', js ''/plugins'', js ''-o'',
        js ''/tmp/ink/6f1c.json'', js ''/proj/story.ink'']"
    by simp
  moreover from t example_mkdir_tmp[of stats_compiler] d
  have "(example_files(outputDir ?rt (Some stats_options) \<mapsto> Directory)) (js ''/tmp/ink'')
      = Some Directory"
    by simp
  ultimately show ?thesis using b d n example_mkdir_tmp[of stats_compiler] by simp
qed

text \<open>
  The amended claim on a run whose second issue names a file that is not there.
\<close>

theorem C10_read_failure_witness:
  "settled (example_child (missing_compiler (File (ascii ''{}''))) None) = None
   \<and> issues (foldl on_readable initial (readable (example_child (missing_compiler (File (ascii ''{}''))) None)))
      = [blank_choice] @ missing_include # []
   \<and> regex_match errorRegex missing_include
      = Some [js ''missing.ink'', js ''1'', js ''Could not find file'']
   \<and> fs_readFile_utf8 (example_runtime (missing_compiler (File (ascii ''{}''))))
        (files_after (example_child (missing_compiler (File (ascii ''{}''))) None))
        (js ''/proj/missing.ink'') = Inl (ENOENT (js ''/proj/missing.ink''))
   \<and> files_after (example_child (missing_compiler (File (ascii ''{}''))) None) (js ''/work/6f1c.json'')
      = Some (File (ascii ''{}''))
   \<and> fst (onLoad (example_runtime (missing_compiler (File (ascii ''{}'')))) None story example_files)
      = Inl (ENOENT (js ''/proj/missing.ink''))
   \<and> snd (onLoad (example_runtime (missing_compiler (File (ascii ''{}'')))) None story example_files)
        (js ''/work/6f1c.json'') = None"
proof -
  let ?k = "missing_compiler (File (ascii ''{}''))"
  let ?rt = "example_runtime ?k"
  let ?c = "example_child ?k None"
  have h3: "settled ?c = None" by code_simp
  have h4: "issues (foldl on_readable initial (readable ?c)) = [blank_choice] @ missing_include # []"
    by code_simp
  have b: "translated ?rt (files_after ?c) (path_dirname ?rt story) blank_choice
      = Inr (Warning \<lparr>text = js ''Blank choice'',
               location = Some \<lparr>file = js ''/proj/story.ink'', line = 2,
                                lineText = Some (js ''* '')\<rparr>\<rparr>)"
    by code_simp
  then have h5: "\<forall>i\<in>set [blank_choice].
      \<exists>m. translated ?rt (files_after ?c) (path_dirname ?rt story) i = Inr m"
    by simp
  have m: "regex_match errorRegex missing_include
      = Some [js ''missing.ink'', js ''1'', js ''Could not find file'']"
    by code_simp
  have p: "path_resolve ?rt [path_dirname ?rt story, js ''missing.ink''] = js ''/proj/missing.ink''"
    by code_simp
  have r: "fs_readFile_utf8 ?rt (files_after ?c) (js ''/proj/missing.ink'')
      = Inl (ENOENT (js ''/proj/missing.ink''))"
    by code_simp
  have o: "outputPath ?rt None = js ''/work/6f1c.json''" by code_simp
  have d: "files_after ?c (js ''/work/6f1c.json'') = Some (File (ascii ''{}''))" by code_simp
  from C10_read_failure[OF example_mkdir_work example_child_def h3 h4 h5 disjI1[OF m]]
    match_group_three p r o d
  have "onLoad ?rt None story example_files
      = (Inl (ENOENT (js ''/proj/missing.ink'')), (files_after ?c)(js ''/work/6f1c.json'' := None))"
    by simp
  with h3 h4 m r d show ?thesis by simp
qed

text \<open>
  Claim C10 as stated has the load reject with the error of the read. When the compiler
  has left a directory at the output path, the same run rejects with the error of the
  removal, and the path is still there.
\<close>

theorem C10_counterexample:
  "settled (example_child (missing_compiler Directory) None) = None
   \<and> issues (foldl on_readable initial (readable (example_child (missing_compiler Directory) None)))
      = [blank_choice, missing_include]
   \<and> translated (example_runtime (missing_compiler Directory))
        (files_after (example_child (missing_compiler Directory) None))
        (path_dirname (example_runtime (missing_compiler Directory)) story) missing_include
      = Inl (ENOENT (js ''/proj/missing.ink''))
   \<and> fst (onLoad (example_runtime (missing_compiler Directory)) None story example_files)
      = Inl (EISDIR (js ''/work/6f1c.json''))
   \<and> snd (onLoad (example_runtime (missing_compiler Directory)) None story example_files)
        (js ''/work/6f1c.json'') = Some Directory"
  by code_simp

end
